theory Spec2Isabelle
  imports Complex_Main "HOL-Library.Sublist"
begin

section \<open>Incremental response delivery of the Zava chatbot\<close>

text \<open>
  A shallow embedding of \<^verbatim>\<open>src/frontend/src/components/zava/ZavaChatbot.tsx\<close>:
  the replay scheduler \<^verbatim>\<open>simulateStreamingResponse\<close>, the live stream loop and the
  entry point \<^verbatim>\<open>handleSendMessage\<close>, together with \<^verbatim>\<open>handleReset\<close>.

  Conventions of the model.
  \<^item> A JavaScript string is a \<open>string\<close>: a list of code units below 256.
  \<^item> A JavaScript number that counts words is a \<open>nat\<close>. A number of milliseconds is a
    double, hence a \<open>rat\<close>; the two operations the source applies to such numbers,
    \<^verbatim>\<open>totalDurationMs - startDelayMs\<close> and \<^verbatim>\<open>streamingDuration / chunks.length\<close>,
    round their results and are parameters of the model (an \<open>arith\<close>).
  \<^item> A React state setter and every awaited timer or request is an \<open>effect\<close>; a handler
    is the list of effects it performs, in order. \<^verbatim>\<open>console\<close> output is left out.
\<close>

subsection \<open>Strings: \<^verbatim>\<open>split\<close>, \<open>join\<close>, \<open>slice\<close>, \<open>trim\<close>\<close>

text \<open>\<^verbatim>\<open>s.split(sep)\<close> for a separator of one character: one more piece than there
  are separators, so never the empty array (the last branch below is never taken). A
  character other than the separator goes in front of the first piece of the rest.\<close>

fun split_on :: "char \<Rightarrow> string \<Rightarrow> string list" where
  "split_on sep [] = [[]]"
| "split_on sep (c # cs) =
     (if c = sep then [] # split_on sep cs
      else (case split_on sep cs of
              w # ws \<Rightarrow> (c # w) # ws
            | [] \<Rightarrow> [[c]]))"

text \<open>\<^verbatim>\<open>ws.join(sep)\<close> for a separator of one character.\<close>

fun join :: "char \<Rightarrow> string list \<Rightarrow> string" where
  "join sep [] = []"
| "join sep [w] = w"
| "join sep (w # v # ws) = w @ sep # join sep (v # ws)"

text \<open>\<^verbatim>\<open>xs.slice(i, j)\<close> for indices \<open>0 \<le> i \<le> j\<close>; an end beyond the array is cut.\<close>

definition slice :: "nat \<Rightarrow> nat \<Rightarrow> 'a list \<Rightarrow> 'a list" where
  "slice i j xs = take (j - i) (drop i xs)"

text \<open>The white space and line terminators of ECMAScript among the code units below 256:
  TAB, LF, VT, FF, CR, SP and NBSP.\<close>

definition is_ws :: "char \<Rightarrow> bool" where
  "is_ws c = (of_char c \<in> {9, 10, 11, 12, 13, 32, 160 :: nat})"

text \<open>\<^verbatim>\<open>s.trim()\<close>: white space removed at both ends.\<close>

definition trim :: "string \<Rightarrow> string" where
  "trim s = rev (dropWhile is_ws (rev (dropWhile is_ws s)))"

subsection \<open>Messages and the updaters passed to \<^verbatim>\<open>setMessages\<close>\<close>

datatype role = User | Assistant

record Message =
  id_m :: string
  role :: role
  content :: string
  timestamp :: nat
  modelName :: "string option"

text \<open>The three shapes of \<^verbatim>\<open>prev.map(msg => msg.id === assistantMessageId ? {...} : msg)\<close>:
  \<^item> \<open>Content_update\<close>: \<^verbatim>\<open>{ ...msg, content }\<close>;
  \<^item> \<open>Model_update\<close>: \<^verbatim>\<open>{ ...msg, modelName }\<close>;
  \<^item> \<open>Replace_update\<close>: \<^verbatim>\<open>{ ...msg, content, modelName: undefined }\<close>.\<close>

datatype update =
    Content_update string string
  | Model_update string string
  | Replace_update string string

fun target :: "update \<Rightarrow> string" where
  "target (Content_update a c) = a"
| "target (Model_update a m) = a"
| "target (Replace_update a c) = a"

fun rewrite :: "update \<Rightarrow> Message \<Rightarrow> Message" where
  "rewrite (Content_update a c) msg = msg\<lparr>content := c\<rparr>"
| "rewrite (Model_update a m) msg = msg\<lparr>modelName := Some m\<rparr>"
| "rewrite (Replace_update a c) msg = msg\<lparr>content := c, modelName := None\<rparr>"

definition apply_update :: "update \<Rightarrow> Message list \<Rightarrow> Message list" where
  "apply_update u prev = map (\<lambda>msg. if id_m msg = target u then rewrite u msg else msg) prev"

subsection \<open>Component state and effects\<close>

datatype modelType = Router | Benchmark

record state =
  messages :: "Message list"
  inputValue :: string
  isLoading :: bool
  modelType :: modelType
  showSuggestions :: bool

text \<open>What a handler does, step by step: the state setters, \<^verbatim>\<open>await setTimeout\<close> and
  the request to the backend.\<close>

datatype effect =
    SetMessages_append Message
  | SetMessages_map update
  | SetMessages_value "Message list"
  | SetInputValue string
  | SetIsLoading bool
  | SetModelType modelType
  | SetShowSuggestions bool
  | Timeout rat
  | Fetch string modelType

fun apply_effect :: "effect \<Rightarrow> state \<Rightarrow> state" where
  "apply_effect (SetMessages_append m) s = s\<lparr>messages := messages s @ [m]\<rparr>"
| "apply_effect (SetMessages_map u) s = s\<lparr>messages := apply_update u (messages s)\<rparr>"
| "apply_effect (SetMessages_value ms) s = s\<lparr>messages := ms\<rparr>"
| "apply_effect (SetInputValue v) s = s\<lparr>inputValue := v\<rparr>"
| "apply_effect (SetIsLoading b) s = s\<lparr>isLoading := b\<rparr>"
| "apply_effect (SetModelType t) s = s\<lparr>modelType := t\<rparr>"
| "apply_effect (SetShowSuggestions b) s = s\<lparr>showSuggestions := b\<rparr>"
| "apply_effect (Timeout d) s = s"
| "apply_effect (Fetch m t) s = s"


definition run :: "effect list \<Rightarrow> state \<Rightarrow> state" where
  "run es s = fold apply_effect es s"

text \<open>Views of a trace: the message updates, the texts of its content updates, its
  timer delays, and the sum of the delays after the first timer (in a replay the first
  timer is the start delay, the others separate the chunks).\<close>

fun updates_of :: "effect list \<Rightarrow> update list" where
  "updates_of [] = []"
| "updates_of (SetMessages_map u # es) = u # updates_of es"
| "updates_of (e # es) = updates_of es"

fun contents_of :: "effect list \<Rightarrow> string list" where
  "contents_of [] = []"
| "contents_of (SetMessages_map (Content_update a c) # es) = c # contents_of es"
| "contents_of (e # es) = contents_of es"

fun delays_of :: "effect list \<Rightarrow> rat list" where
  "delays_of [] = []"
| "delays_of (Timeout d # es) = d # delays_of es"
| "delays_of (e # es) = delays_of es"


fun is_model_update :: "update \<Rightarrow> bool" where
  "is_model_update (Model_update a m) = True"
| "is_model_update u = False"

subsection \<open>The replay scheduler: \<^verbatim>\<open>simulateStreamingResponse\<close>\<close>

text \<open>The chunking loop
  \<^verbatim>\<open>for (let i = 0; i < words.length; i += wordsPerChunk)
    chunks.push(words.slice(i, i + wordsPerChunk).join(' ') + ' ')\<close>.
  With \<^verbatim>\<open>wordsPerChunk\<close> zero the index never moves and the loop does not end:
  the value is then \<open>None\<close>.\<close>

partial_function (option) chunk_loop ::
  "string list \<Rightarrow> nat \<Rightarrow> nat \<Rightarrow> string list \<Rightarrow> string list option" where
  [code]: "chunk_loop words wordsPerChunk i chunks =
     (if i < length words
      then chunk_loop words wordsPerChunk (i + wordsPerChunk)
             (chunks @ [join CHR '' '' (slice i (i + wordsPerChunk) words) @ '' ''])
      else Some chunks)"

text \<open>The emitting loop: the accumulated text grows by one chunk, its trimmed form is
  written to the placeholder, and a timer follows every chunk but the last.\<close>

fun emit_chunks :: "string \<Rightarrow> rat \<Rightarrow> string \<Rightarrow> string list \<Rightarrow> effect list" where
  "emit_chunks aid delayPerChunk accumulatedContent [] = []"
| "emit_chunks aid delayPerChunk accumulatedContent (c # cs) =
     SetMessages_map (Content_update aid (trim (accumulatedContent @ c)))
       # (if cs \<noteq> [] then [Timeout delayPerChunk] else [])
       @ emit_chunks aid delayPerChunk (accumulatedContent @ c) cs"

text \<open>The arithmetic of the runtime on doubles: subtraction and division, each rounding
  its exact result to a double.\<close>

record arith =
  minus_d :: "rat \<Rightarrow> rat \<Rightarrow> rat"
  divide_d :: "rat \<Rightarrow> rat \<Rightarrow> rat"

text \<open>The operations without rounding. They are those of the runtime wherever the exact
  result is a double, as it is for \<open>300 - 100\<close> and \<open>200 / 2\<close>.\<close>

definition exact_arith :: arith where
  "exact_arith = \<lparr>minus_d = (-), divide_d = (/)\<rparr>"

text \<open>\<^verbatim>\<open>const streamingDuration = totalDurationMs - startDelayMs\<close> and
  \<^verbatim>\<open>chunks.length > 1 ? streamingDuration / chunks.length : 0\<close>.\<close>

definition delayPerChunk :: "arith \<Rightarrow> rat \<Rightarrow> rat \<Rightarrow> nat \<Rightarrow> rat" where
  "delayPerChunk ar startDelayMs totalDurationMs n =
     (let streamingDuration = minus_d ar totalDurationMs startDelayMs
      in if 1 < n then divide_d ar streamingDuration (of_nat n) else 0)"

definition simulateStreamingResponse ::
  "arith \<Rightarrow> string \<Rightarrow> rat \<Rightarrow> rat \<Rightarrow> nat \<Rightarrow> string \<Rightarrow> string \<Rightarrow> effect list option" where
  "simulateStreamingResponse ar response startDelayMs totalDurationMs wordsPerChunk aid model =
     (case chunk_loop (split_on CHR '' '' response) wordsPerChunk 0 [] of
        None \<Rightarrow> None
      | Some chunks \<Rightarrow>
          Some (Timeout startDelayMs
                # emit_chunks aid (delayPerChunk ar startDelayMs totalDurationMs (length chunks))
                    [] chunks
                @ [SetMessages_map (Model_update aid model)]))"


text \<open>The word groups the loop cuts, as a total function (the closed form of the loop).\<close>

fun groups :: "nat \<Rightarrow> 'a list \<Rightarrow> 'a list list" where
  "groups n xs = (if n = 0 \<or> xs = [] then [] else take n xs # groups n (drop n xs))"

declare groups.simps [simp del]

subsection \<open>The live stream\<close>

text \<open>The payload of a \<^verbatim>\<open>data: \<close> line, with the fields of the backend's wire format:
  \<^verbatim>\<open>content\<close>, \<^verbatim>\<open>model\<close> and \<^verbatim>\<open>error\<close> are texts, \<^verbatim>\<open>done\<close> is a boolean,
  each of them optional. A field is truthy when it is present and not the empty text
  (not \<^verbatim>\<open>false\<close>).\<close>

record payload =
  content_f :: "string option"
  model_f :: "string option"
  error_f :: "string option"
  done_f :: "bool option"

fun truthy :: "string option \<Rightarrow> bool" where
  "truthy None = False"
| "truthy (Some v) = (v \<noteq> [])"

text \<open>The variables of the read loop.\<close>

record stream_state =
  accumulatedContent :: string
  isDone :: bool

text \<open>The body of \<^verbatim>\<open>for (const line of lines)\<close>. \<open>parse\<close> stands for
  \<^verbatim>\<open>JSON.parse\<close>, with \<open>None\<close> where it throws (or yields no object to read fields
  from). The \<^verbatim>\<open>throw new Error(data.error)\<close> is raised inside the \<^verbatim>\<open>try\<close> whose
  \<^verbatim>\<open>catch (parseError)\<close> only logs: the line ends there, and so does nothing else.\<close>

definition handle_line ::
  "(string \<Rightarrow> payload option) \<Rightarrow> string \<Rightarrow> string \<Rightarrow> stream_state \<Rightarrow> stream_state \<times> effect list" where
  "handle_line parse aid line st =
     (if prefix ''data: '' line then
        (case parse (drop 6 line) of
           None \<Rightarrow> (st, [])
         | Some data \<Rightarrow>
             if truthy (error_f data) then (st, [])
             else
               let acc = (case content_f data of
                            Some c \<Rightarrow> if c \<noteq> [] then accumulatedContent st @ c
                                      else accumulatedContent st
                          | None \<Rightarrow> accumulatedContent st);
                   shown = (if truthy (content_f data)
                            then [SetMessages_map (Content_update aid acc)] else []);
                   named = (case model_f data of
                              Some m \<Rightarrow> if m \<noteq> [] then [SetMessages_map (Model_update aid m)]
                                        else []
                            | None \<Rightarrow> []);
                   finished = (if done_f data = Some True then True else isDone st)
               in (\<lparr>accumulatedContent = acc, isDone = finished\<rparr>, shown @ named))
      else (st, []))"

fun handle_lines ::
  "(string \<Rightarrow> payload option) \<Rightarrow> string \<Rightarrow> string list \<Rightarrow> stream_state \<Rightarrow> stream_state \<times> effect list" where
  "handle_lines parse aid [] st = (st, [])"
| "handle_lines parse aid (line # lines) st =
     (let (st1, es1) = handle_line parse aid line st;
          (st2, es2) = handle_lines parse aid lines st1
      in (st2, es1 @ es2))"

text \<open>What \<^verbatim>\<open>reader.read()\<close> delivers, one after the other: a decoded fragment of text,
  or a rejection. When the list is used up the reader reports \<^verbatim>\<open>done\<close>.\<close>

datatype read = Fragment string | Read_rejected

datatype error = Fetch_failed | Api_request_failed nat | Body_not_readable | Read_failed

text \<open>\<^verbatim>\<open>while (!isDone) { read; if (done) break; split the fragment at '\n'; ... }\<close>:
  each fragment is split on its own, and only \<open>accumulatedContent\<close> and \<open>isDone\<close> pass
  from one fragment to the next.\<close>

fun read_loop ::
  "(string \<Rightarrow> payload option) \<Rightarrow> string \<Rightarrow> read list \<Rightarrow> stream_state
     \<Rightarrow> (error + stream_state) \<times> effect list" where
  "read_loop parse aid [] st = (Inr st, [])"
| "read_loop parse aid (r # rs) st =
     (if isDone st then (Inr st, [])
      else case r of
        Read_rejected \<Rightarrow> (Inl Read_failed, [])
      | Fragment chunk \<Rightarrow>
          (let (st1, es1) = handle_lines parse aid (split_on (CHR 0x0A) chunk) st;
               (res, es2) = read_loop parse aid rs st1
           in (res, es1 @ es2)))"

text \<open>The answer of \<^verbatim>\<open>fetch\<close>: a rejection, or a status with a body that is absent or
  a sequence of reads.\<close>

datatype http_response = Rejected | Response nat "read list option"

definition ok :: "nat \<Rightarrow> bool" where
  "ok status = (200 \<le> status \<and> status \<le> 299)"

definition error_apology :: string where
  "error_apology = ''I apologize, but I encountered an error. Please try again later.''"

definition empty_apology :: string where
  "empty_apology = ''I apologize, but I couldn't generate a response. Please try again.''"

definition replay_apology :: string where
  "replay_apology = ''I apologize, but I encountered an error in replay mode. Please try again.''"

text \<open>The body of the outer \<^verbatim>\<open>try\<close>, after the request is sent.\<close>

definition live_try ::
  "(string \<Rightarrow> payload option) \<Rightarrow> string \<Rightarrow> http_response \<Rightarrow> (error + stream_state) \<times> effect list" where
  "live_try parse aid resp =
     (case resp of
        Rejected \<Rightarrow> (Inl Fetch_failed, [])
      | Response status body \<Rightarrow>
          if \<not> ok status then (Inl (Api_request_failed status), [])
          else (case body of
                  None \<Rightarrow> (Inl Body_not_readable, [])
                | Some reads \<Rightarrow>
                    read_loop parse aid reads \<lparr>accumulatedContent = [], isDone = False\<rparr>))"

text \<open>The live path of \<^verbatim>\<open>handleSendMessage\<close>: request, \<^verbatim>\<open>try\<close>, the check for an
  empty result, \<^verbatim>\<open>catch\<close> and \<^verbatim>\<open>finally\<close>.\<close>

definition live_delivery ::
  "(string \<Rightarrow> payload option) \<Rightarrow> string \<Rightarrow> string \<Rightarrow> modelType \<Rightarrow> http_response \<Rightarrow> effect list" where
  "live_delivery parse aid message mt resp =
     Fetch message mt
     # (case live_try parse aid resp of
          (Inl e, es) \<Rightarrow> es @ [SetMessages_map (Replace_update aid error_apology)]
        | (Inr st, es) \<Rightarrow>
            es @ (if accumulatedContent st = []
                  then [SetMessages_map (Replace_update aid empty_apology)] else []))
     @ [SetIsLoading False]"

subsection \<open>\<^verbatim>\<open>handleSendMessage\<close>, \<^verbatim>\<open>handleSuggestedMessage\<close> and \<^verbatim>\<open>handleReset\<close>\<close>

record script =
  response :: string
  startStreamingMs :: rat
  finishStreamingMs :: rat
  wordsPerChunk :: nat
  model :: string

record scenario =
  router :: script
  benchmark :: script

text \<open>\<^verbatim>\<open>replayScenarios[messageToSend]\<close>: no such key, a scenario of the replay data, or
  a property every object inherits (the key \<^verbatim>\<open>constructor\<close>, say), which is truthy
  but has no scripts.\<close>

datatype lookup = Absent | Scenario scenario | Inherited

text \<open>What \<^verbatim>\<open>handleSendMessage\<close> reads from outside the component: the clock (for ids
  and timestamps), the offline flag of the session storage, the arithmetic on doubles,
  the replay data (the file \<^verbatim>\<open>data/replayData.json\<close>), \<^verbatim>\<open>JSON.parse\<close> and the
  backend's answer.\<close>

record env =
  dateNow_user :: nat
  date_user :: nat
  dateNow_assistant :: nat
  date_assistant :: nat
  offlineMode :: bool
  number_arith :: arith
  zavaScenarios :: "string \<Rightarrow> lookup"
  json_parse :: "string \<Rightarrow> payload option"
  backend :: http_response

text \<open>\<^verbatim>\<open>n.toString()\<close> for a natural number: its decimal digits.\<close>

fun toString :: "nat \<Rightarrow> string" where
  "toString n =
     (if n < 10 then [''0123456789'' ! n]
      else toString (n div 10) @ [''0123456789'' ! (n mod 10)])"

declare toString.simps [simp del]

definition messageToSend :: "string option \<Rightarrow> string \<Rightarrow> string" where
  "messageToSend customMessage input =
     (case customMessage of
        Some m \<Rightarrow> if m \<noteq> [] then m else trim input
      | None \<Rightarrow> trim input)"

definition handleSendMessage :: "env \<Rightarrow> string option \<Rightarrow> state \<Rightarrow> effect list option" where
  "handleSendMessage env customMessage s =
     (let msg = messageToSend customMessage (inputValue s) in
      if msg = [] \<or> isLoading s then Some []
      else
        let userMessage = \<lparr>id_m = toString (dateNow_user env), role = User, content = msg,
                           timestamp = date_user env, modelName = None\<rparr>;
            assistantMessageId = toString (dateNow_assistant env + 1);
            assistantMessage = \<lparr>id_m = assistantMessageId, role = Assistant, content = [],
                                timestamp = date_assistant env, modelName = None\<rparr>;
            begun = [SetShowSuggestions False, SetMessages_append userMessage, SetInputValue [],
                     SetIsLoading True, SetMessages_append assistantMessage]
        in case (if offlineMode env then zavaScenarios env msg else Absent) of
             Scenario scenarioData \<Rightarrow>
               (let dataToUse = (if modelType s = Router then router scenarioData
                                 else benchmark scenarioData)
                in case simulateStreamingResponse (number_arith env) (response dataToUse)
                          (startStreamingMs dataToUse)
                          (finishStreamingMs dataToUse) (wordsPerChunk dataToUse)
                          assistantMessageId (model dataToUse) of
                     None \<Rightarrow> None
                   | Some es \<Rightarrow> Some (begun @ es @ [SetIsLoading False]))
           | Inherited \<Rightarrow>
               Some (begun @ [SetMessages_map (Replace_update assistantMessageId replay_apology),
                              SetIsLoading False])
           | Absent \<Rightarrow>
               Some (begun @ live_delivery (json_parse env) assistantMessageId msg (modelType s)
                               (backend env)))"


definition handleSuggestedMessage :: "env \<Rightarrow> string \<Rightarrow> state \<Rightarrow> effect list option" where
  "handleSuggestedMessage env messageText s =
     map_option ((#) (SetShowSuggestions False))
       (handleSendMessage env (Some messageText) (apply_effect (SetShowSuggestions False) s))"

definition initialMessages :: "nat \<Rightarrow> Message list" where
  "initialMessages now =
     [\<lparr>id_m = ''1'', role = Assistant,
       content = ''Hi! I'm the Zava AI assistant. I can help you with questions about our smart sportswear technology, products, and performance tracking. How can I help you today?'',
       timestamp = now, modelName = None\<rparr>]"

definition handleReset :: "nat \<Rightarrow> effect list" where
  "handleReset now =
     [SetMessages_value (initialMessages now), SetInputValue [], SetIsLoading False,
      SetModelType Router, SetShowSuggestions True]"

text \<open>A reset that arrives while a delivery is suspended, after \<open>k\<close> of its effects: the
  reset runs, and the delivery goes on afterwards, since neither \<^verbatim>\<open>handleReset\<close> nor the
  delivery holds a handle on the timers or on the request.\<close>

definition reset_during :: "nat \<Rightarrow> nat \<Rightarrow> effect list \<Rightarrow> effect list" where
  "reset_during k now es = take k es @ handleReset now @ drop k es"

subsection \<open>A reader of flat JSON objects\<close>

text \<open>\<^verbatim>\<open>JSON.parse\<close> belongs to the runtime, and the definitions above take it as a
  parameter. To run them on concrete lines, \<open>parse_flat\<close> reads the objects of the wire
  format: members with a text or a boolean as value, texts without escapes, blanks
  between tokens. On these it yields the fields \<^verbatim>\<open>JSON.parse\<close> yields, and \<open>None\<close> on
  a text that is cut short.\<close>

datatype token = LBrace | RBrace | Colon | Comma | Str string | Word string

datatype lexer = Idle | In_string string | In_word string

definition is_letter :: "char \<Rightarrow> bool" where
  "is_letter c = (97 \<le> (of_char c :: nat) \<and> (of_char c :: nat) \<le> 122)"

fun symbol :: "char \<Rightarrow> token option" where
  "symbol c =
     (if c = CHR ''{'' then Some LBrace
      else if c = CHR ''}'' then Some RBrace
      else if c = CHR '':'' then Some Colon
      else if c = CHR '','' then Some Comma
      else None)"

text \<open>The letters read so far, and the token they make when the word ends.\<close>

fun word_of :: "lexer \<Rightarrow> string" where
  "word_of (In_word w) = w"
| "word_of st = []"

fun flush :: "lexer \<Rightarrow> token list" where
  "flush (In_word w) = [Word w]"
| "flush st = []"

fun lex :: "lexer \<Rightarrow> string \<Rightarrow> token list option" where
  "lex st [] = (case st of In_string t \<Rightarrow> None | _ \<Rightarrow> Some (flush st))"
| "lex st (c # cs) =
     (case st of
        In_string t \<Rightarrow>
          (if c = CHR 0x22 then map_option ((#) (Str t)) (lex Idle cs)
           else if c = CHR 0x5C then None
           else lex (In_string (t @ [c])) cs)
      | _ \<Rightarrow>
          (if is_letter c then lex (In_word (word_of st @ [c])) cs
           else map_option ((@) (flush st))
                  (if c = CHR 0x22 then lex (In_string []) cs
                   else if c = CHR '' '' then lex Idle cs
                   else (case symbol c of
                           Some t \<Rightarrow> map_option ((#) t) (lex Idle cs)
                         | None \<Rightarrow> None))))"

datatype jvalue = JString string | JBool bool

fun jvalue_of :: "token \<Rightarrow> jvalue option" where
  "jvalue_of (Str t) = Some (JString t)"
| "jvalue_of (Word w) =
     (if w = ''true'' then Some (JBool True)
      else if w = ''false'' then Some (JBool False) else None)"
| "jvalue_of t = None"

text \<open>The members after the opening brace: \<^verbatim>\<open>"name": value\<close>, then a comma and more
  members, or the closing brace at the end.\<close>

fun members :: "token list \<Rightarrow> (string \<times> jvalue) list option" where
  "members (k # c # v # t # ts) =
     (case (k, c, jvalue_of v) of
        (Str name, Colon, Some x) \<Rightarrow>
          (if t = RBrace \<and> ts = [] then Some [(name, x)]
           else if t = Comma then map_option ((#) (name, x)) (members ts)
           else None)
      | _ \<Rightarrow> None)"
| "members ts = None"

definition object_of :: "token list \<Rightarrow> (string \<times> jvalue) list option" where
  "object_of ts =
     (case ts of
        [LBrace, RBrace] \<Rightarrow> Some []
      | LBrace # rest \<Rightarrow> members rest
      | _ \<Rightarrow> None)"

text \<open>The last member of a name counts, as in JavaScript.\<close>

fun text_field :: "string \<Rightarrow> (string \<times> jvalue) list \<Rightarrow> string option" where
  "text_field k kvs = (case map_of (rev kvs) k of Some (JString t) \<Rightarrow> Some t | _ \<Rightarrow> None)"

fun bool_field :: "string \<Rightarrow> (string \<times> jvalue) list \<Rightarrow> bool option" where
  "bool_field k kvs = (case map_of (rev kvs) k of Some (JBool b) \<Rightarrow> Some b | _ \<Rightarrow> None)"

definition parse_flat :: "string \<Rightarrow> payload option" where
  "parse_flat t =
     (case lex Idle t of
        None \<Rightarrow> None
      | Some ts \<Rightarrow>
          (case object_of ts of
             None \<Rightarrow> None
           | Some kvs \<Rightarrow>
               Some \<lparr>content_f = text_field ''content'' kvs, model_f = text_field ''model'' kvs,
                     error_f = text_field ''error'' kvs, done_f = bool_field ''done'' kvs\<rparr>))"

subsection \<open>A sample environment\<close>

text \<open>Replay data with one scenario, under the key \<^verbatim>\<open>hello\<close>, a clock that reads 41,
  the offline flag set, and a backend that answers with one content line; the component
  after the user typed \<^verbatim>\<open>hello\<close>.\<close>

definition sample_scenarios :: "string \<Rightarrow> lookup" where
  "sample_scenarios key =
     (if key = ''hello''
      then Scenario \<lparr>router = \<lparr>response = ''a b'', startStreamingMs = 100,
                               finishStreamingMs = 300, wordsPerChunk = 1, model = ''X''\<rparr>,
                     benchmark = \<lparr>response = ''c'', startStreamingMs = 50,
                                  finishStreamingMs = 60, wordsPerChunk = 2, model = ''Y''\<rparr>\<rparr>
      else if key = ''constructor'' then Inherited
      else Absent)"

definition sample_env :: env where
  "sample_env =
     \<lparr>dateNow_user = 41, date_user = 41, dateNow_assistant = 41, date_assistant = 41,
      offlineMode = True, number_arith = exact_arith, zavaScenarios = sample_scenarios,
      json_parse = parse_flat,
      backend = Response 200 (Some [Fragment (''data: {\"content\":\"Hi\"}'' @ [CHR 0x0A])])\<rparr>"

definition sample_state :: state where
  "sample_state =
     \<lparr>messages = [], inputValue = ''hello'', isLoading = False, modelType = Router,
      showSuggestions = True\<rparr>"

section \<open>Properties\<close>

subsection \<open>Splitting, joining and grouping\<close>

lemma split_on_not_Nil: "split_on sep s \<noteq> []"
  by (induction s) (auto split: list.splits)

lemma join_Cons: "ws \<noteq> [] \<Longrightarrow> join sep (w # ws) = w @ sep # join sep ws"
  by (cases ws) auto

lemma join_split_on: "join sep (split_on sep s) = s"
proof (induction s)
  case Nil show ?case by simp
next
  case (Cons c cs)
  obtain w ws where eq: "split_on sep cs = w # ws"
    using split_on_not_Nil [of sep cs] by (cases "split_on sep cs") auto
  with Cons show ?case by (cases ws) auto
qed

lemma join_append:
  "xs \<noteq> [] \<Longrightarrow> ys \<noteq> [] \<Longrightarrow> join sep (xs @ ys) = join sep xs @ sep # join sep ys"
proof (induction xs)
  case Nil then show ?case by simp
next
  case (Cons x xs)
  show ?case
  proof (cases xs)
    case Nil with Cons.prems show ?thesis by (simp add: join_Cons)
  next
    case (Cons a as)
    with Cons.IH Cons.prems show ?thesis by simp
  qed
qed

lemma groups_Nil [simp]: "groups n [] = []"
  by (simp add: groups.simps)

lemma groups_step: "0 < n \<Longrightarrow> xs \<noteq> [] \<Longrightarrow> groups n xs = take n xs # groups n (drop n xs)"
  by (subst groups.simps) simp

lemma concat_groups: "0 < n \<Longrightarrow> concat (groups n xs) = xs"
proof (induction n xs rule: groups.induct)
  case (1 n xs)
  show ?case
  proof (cases "xs = []")
    case True then show ?thesis by simp
  next
    case False
    with 1 show ?thesis by (simp add: groups_step)
  qed
qed

lemma length_groups: "0 < n \<Longrightarrow> length (groups n xs) = (length xs + n - 1) div n"
proof (induction n xs rule: groups.induct)
  case (1 n xs)
  show ?case
  proof (cases "xs = []")
    case True with 1 show ?thesis by simp
  next
    case False
    show ?thesis
    proof (cases "length xs \<le> n")
      case True
      with False 1 have "(length xs + n - 1) div n = 1"
        by (intro div_nat_eqI) (cases xs; simp)+
      with True False 1 show ?thesis by (simp add: groups_step)
    next
      case F: False
      then have "length xs + n - 1 = (length xs - n + n - 1) + n" by simp
      then have "(length xs + n - 1) div n = Suc ((length xs - n + n - 1) div n)"
        using 1(2) by (metis div_add_self2 Suc_eq_plus1 less_numeral_extra(3))
      with False F 1 show ?thesis by (simp add: groups_step)
    qed
  qed
qed

lemma groups_nonempty: "g \<in> set (groups n xs) \<Longrightarrow> g \<noteq> [] \<and> length g \<le> n"
proof (induction n xs rule: groups.induct)
  case (1 n xs)
  show ?case
  proof (cases "n = 0 \<or> xs = []")
    case True with 1(2) show ?thesis by (auto simp: groups.simps)
  next
    case False
    with 1 show ?thesis by (auto simp: groups_step)
  qed
qed

lemma groups_butlast_full: "g \<in> set (butlast (groups n xs)) \<Longrightarrow> length g = n"
proof (induction n xs rule: groups.induct)
  case (1 n xs)
  show ?case
  proof (cases "n = 0 \<or> xs = []")
    case True with 1(2) show ?thesis by (auto simp: groups.simps)
  next
    case False
    show ?thesis
    proof (cases "drop n xs = []")
      case True
      with False 1(2) show ?thesis by (simp add: groups_step)
    next
      case D: False
      then have "groups n (drop n xs) \<noteq> []" using False by (simp add: groups_step)
      with 1 False D show ?thesis by (auto simp: groups_step)
    qed
  qed
qed

lemma chunk_loop_closed:
  "0 < n \<Longrightarrow> chunk_loop ws n i acc =
     Some (acc @ map (\<lambda>g. join CHR '' '' g @ '' '') (groups n (drop i ws)))"
proof (induction "length ws - i" arbitrary: i acc rule: less_induct)
  case less
  show ?case
  proof (cases "i < length ws")
    case False
    then show ?thesis by (subst chunk_loop.simps) simp
  next
    case True
    then have ne: "drop i ws \<noteq> []" by simp
    have "length ws - (i + n) < length ws - i" using True less.prems by arith
    from less.hyps [OF this less.prems]
    show ?thesis using True ne less.prems
      by (subst chunk_loop.simps) (simp add: groups_step slice_def drop_drop add.commute)
  qed
qed

lemma join_groups: "0 < n \<Longrightarrow> join sep (map (join sep) (groups n xs)) = join sep xs"
proof (induction n xs rule: groups.induct)
  case (1 n xs)
  show ?case
  proof (cases "xs = []")
    case True then show ?thesis by simp
  next
    case False
    show ?thesis
    proof (cases "drop n xs = []")
      case True
      with False 1(2) show ?thesis by (simp add: groups_step)
    next
      case D: False
      then have g: "groups n (drop n xs) \<noteq> []" using 1(2) by (simp add: groups_step)
      have t: "take n xs \<noteq> []" using False 1(2) by (cases xs) auto
      have "join sep xs = join sep (take n xs @ drop n xs)" by simp
      also have "\<dots> = join sep (take n xs) @ sep # join sep (drop n xs)"
        using t D by (rule join_append)
      finally show ?thesis using 1 False D g by (simp add: groups_step join_Cons)
    qed
  qed
qed

lemma concat_chunks:
  "0 < n \<Longrightarrow> xs \<noteq> [] \<Longrightarrow>
   concat (map (\<lambda>g. join sep g @ [sep]) (groups n xs)) = join sep xs @ [sep]"
proof (induction n xs rule: groups.induct)
  case (1 n xs)
  show ?case
  proof (cases "drop n xs = []")
    case True
    with 1(2,3) show ?thesis by (simp add: groups_step)
  next
    case D: False
    have t: "take n xs \<noteq> []" using 1(2,3) by (cases xs) auto
    have "join sep xs = join sep (take n xs @ drop n xs)" by simp
    also have "\<dots> = join sep (take n xs) @ sep # join sep (drop n xs)"
      using t D by (rule join_append)
    finally show ?thesis using 1 D by (simp add: groups_step)
  qed
qed

lemma contents_of_emit:
  "contents_of (emit_chunks aid d acc cs) =
     map (\<lambda>k. trim (acc @ concat (take (Suc k) cs))) [0..<length cs]"
proof (induction cs arbitrary: acc)
  case Nil show ?case by simp
next
  case (Cons c cs)
  have "map (\<lambda>k. trim (acc @ concat (take (Suc k) (c # cs)))) [0..<length (c # cs)]
      = trim (acc @ c) # map (\<lambda>k. trim ((acc @ c) @ concat (take (Suc k) cs))) [0..<length cs]"
    by (simp add: upt_conv_Cons map_Suc_upt [symmetric] del: upt_Suc)
  with Cons [of "acc @ c"] show ?case by simp
qed


lemma updates_of_emit:
  "updates_of (emit_chunks aid d acc cs) =
     map (\<lambda>k. Content_update aid (trim (acc @ concat (take (Suc k) cs)))) [0..<length cs]"
proof (induction cs arbitrary: acc)
  case Nil show ?case by simp
next
  case (Cons c cs)
  have "map (\<lambda>k. Content_update aid (trim (acc @ concat (take (Suc k) (c # cs))))) [0..<length (c # cs)]
      = Content_update aid (trim (acc @ c)) # map (\<lambda>k. Content_update aid (trim ((acc @ c) @ concat (take (Suc k) cs)))) [0..<length cs]"
    by (simp add: upt_conv_Cons map_Suc_upt [symmetric] del: upt_Suc)
  with Cons [of "acc @ c"] show ?case by (cases cs) auto
qed


lemma simulate_closed:
  assumes "0 < n"
  shows "simulateStreamingResponse ar text start finish n aid m =
     Some (Timeout start
           # emit_chunks aid
               (delayPerChunk ar start finish (length (groups n (split_on CHR '' '' text)))) []
               (map (\<lambda>g. join CHR '' '' g @ '' '') (groups n (split_on CHR '' '' text)))
           @ [SetMessages_map (Model_update aid m)])"
  using assms by (simp add: simulateStreamingResponse_def chunk_loop_closed)

lemma contents_of_append: "contents_of (es @ fs) = contents_of es @ contents_of fs"
  by (induction es rule: contents_of.induct) auto

lemma delays_of_append: "delays_of (es @ fs) = delays_of es @ delays_of fs"
  by (induction es rule: delays_of.induct) auto

lemma updates_of_append: "updates_of (es @ fs) = updates_of es @ updates_of fs"
  by (induction es rule: updates_of.induct) auto

lemma trim_no_ws:
  assumes "s = [] \<or> (\<not> is_ws (hd s) \<and> \<not> is_ws (last s))"
  shows "trim s = s"
proof (cases s rule: rev_cases)
  case Nil then show ?thesis by (simp add: trim_def)
next
  case (snoc bs l)
  with assms have h: "\<not> is_ws (hd s)" and l: "\<not> is_ws l" by auto
  have "s \<noteq> []" using snoc by simp
  then obtain c cs where "s = c # cs" by (cases s) auto
  with h have 1: "dropWhile is_ws s = s" by simp
  from l snoc have "dropWhile is_ws (rev s) = rev s" by simp
  with 1 show ?thesis by (simp add: trim_def)
qed

lemma dropWhile_snoc:
  "dropWhile P (xs @ [x]) = (if \<forall>y \<in> set xs. P y then dropWhile P [x] else dropWhile P xs @ [x])"
  by (induction xs) auto

lemma trim_append_space: "trim (s @ '' '') = trim s"
proof -
  have sp: "is_ws CHR '' ''" by (simp add: is_ws_def)
  show ?thesis
  proof (cases "\<forall>y \<in> set s. is_ws y")
    case True
    then have "dropWhile is_ws s = []" by simp
    moreover from True sp have "dropWhile is_ws (s @ '' '') = []" by simp
    ultimately show ?thesis by (simp only: trim_def)
  next
    case False
    then have "dropWhile is_ws (s @ '' '') = dropWhile is_ws s @ '' ''"
      by (simp only: dropWhile_snoc if_False)
    with sp show ?thesis by (simp add: trim_def)
  qed
qed

subsection \<open>The replay scheduler\<close>

text \<open>With a chunk size of zero the chunking loop never returns, and neither does the
  replay: the bound \<open>1 \<le> wordsPerChunk\<close> of the theorems below is needed.\<close>

lemma chunk_loop_zero_never_returns:
  assumes "chunk_loop ws n i acc = Some r"
  shows "\<not> (n = 0 \<and> i < length ws)"
proof (rule chunk_loop.raw_induct
        [where P = "\<lambda>ws n i acc r. \<not> (n = 0 \<and> i < length ws)", OF _ assms])
  fix f :: "string list \<Rightarrow> nat \<Rightarrow> nat \<Rightarrow> string list \<Rightarrow> string list option"
  fix words n i chunks r
  assume IH: "\<And>words n i chunks r. f words n i chunks = Some r \<Longrightarrow> \<not> (n = 0 \<and> i < length words)"
    and body: "(if i < length words
          then f words n (i + n) (chunks @ [join CHR '' '' (slice i (i + n) words) @ '' ''])
          else Some chunks) = Some r"
  show "\<not> (n = 0 \<and> i < length words)"
  proof
    assume z: "n = 0 \<and> i < length words"
    with body have "f words n (i + n) (chunks @ [join CHR '' '' (slice i (i + n) words) @ '' ''])
        = Some r"
      by simp
    from IH [OF this] z show False by simp
  qed
qed

lemma chunk_loop_zero: "i < length ws \<Longrightarrow> chunk_loop ws 0 i acc = None"
  using chunk_loop_zero_never_returns [of ws 0 i acc] by (cases "chunk_loop ws 0 i acc") auto

lemma simulate_zero: "simulateStreamingResponse ar reply start finish 0 aid m = None"
  using split_on_not_Nil [of "CHR '' ''" reply]
  by (simp add: simulateStreamingResponse_def chunk_loop_zero)

text \<open>
  C1 (amended). For every reply text and every chunk size of at least one, the replay
  returns; the \<open>W\<close> pieces of \<^verbatim>\<open>fullText.split(' ')\<close> are cut into exactly
  \<open>\<lceil>W / C\<rceil>\<close> groups, none empty, all but the last of size \<open>C\<close>; the groups in order
  are the pieces, and joined by single spaces they are the text, once, with nothing
  dropped or repeated; there is one content notification per group, the \<open>k\<close>-th carrying
  the first \<open>k\<close> chunks trimmed. The last one carries the trimmed text, which is the text
  itself when it neither starts nor ends with white space.
\<close>

theorem C1_replay_chunks:
  assumes "1 \<le> wpc"
  shows "\<exists>es. simulateStreamingResponse ar text start finish wpc aid m = Some es
     \<and> length (contents_of es) = (length (split_on CHR '' '' text) + wpc - 1) div wpc
     \<and> length (groups wpc (split_on CHR '' '' text))
          = (length (split_on CHR '' '' text) + wpc - 1) div wpc
     \<and> concat (groups wpc (split_on CHR '' '' text)) = split_on CHR '' '' text
     \<and> (\<forall>g \<in> set (groups wpc (split_on CHR '' '' text)). g \<noteq> [] \<and> length g \<le> wpc)
     \<and> (\<forall>g \<in> set (butlast (groups wpc (split_on CHR '' '' text))). length g = wpc)
     \<and> join CHR '' '' (map (join CHR '' '') (groups wpc (split_on CHR '' '' text))) = text
     \<and> contents_of es
          = map (\<lambda>k. trim (concat (take (Suc k)
                   (map (\<lambda>g. join CHR '' '' g @ '' '') (groups wpc (split_on CHR '' '' text))))))
              [0..<length (groups wpc (split_on CHR '' '' text))]
     \<and> last (contents_of es) = trim text
     \<and> (text = [] \<or> (\<not> is_ws (hd text) \<and> \<not> is_ws (last text))
          \<longrightarrow> last (contents_of es) = text)"
proof -
  let ?ws = "split_on CHR '' '' text"
  let ?gs = "groups wpc ?ws"
  let ?cs = "map (\<lambda>g. join CHR '' '' g @ '' '') ?gs"
  let ?es = "Timeout start # emit_chunks aid (delayPerChunk ar start finish (length ?gs)) [] ?cs
               @ [SetMessages_map (Model_update aid m)]"
  from assms have pos: "0 < wpc" by simp
  have sim: "simulateStreamingResponse ar text start finish wpc aid m = Some ?es"
    using pos by (rule simulate_closed)
  have len: "length ?gs = (length ?ws + wpc - 1) div wpc"
    using pos by (rule length_groups)
  have wne: "?ws \<noteq> []" by (rule split_on_not_Nil)
  have gne: "?gs \<noteq> []"
    using pos wne by (simp add: groups_step)
  have cont: "contents_of ?es = map (\<lambda>k. trim (concat (take (Suc k) ?cs))) [0..<length ?gs]"
    by (simp add: contents_of_append contents_of_emit)
  have all: "concat ?cs = text @ '' ''"
    using concat_chunks [OF pos wne, of "CHR '' ''"] by (simp add: join_split_on)
  have "last (contents_of ?es) = trim (concat (take (Suc (length ?gs - 1)) ?cs))"
    using gne unfolding cont by (simp add: last_map del: upt_Suc take_Suc)
  also have "\<dots> = trim (concat ?cs)" using gne by simp
  also have "\<dots> = trim text" unfolding all by (rule trim_append_space)
  finally have lst: "last (contents_of ?es) = trim text" .
  have sizes: "\<forall>g \<in> set ?gs. g \<noteq> [] \<and> length g \<le> wpc"
    using groups_nonempty by blast
  have full: "\<forall>g \<in> set (butlast ?gs). length g = wpc"
    using groups_butlast_full by blast
  have joined: "join CHR '' '' (map (join CHR '' '') ?gs) = text"
    using join_groups [OF pos] by (simp add: join_split_on)
  have clen: "length (contents_of ?es) = (length ?ws + wpc - 1) div wpc"
    unfolding cont using len by simp
  have same: "text = [] \<or> (\<not> is_ws (hd text) \<and> \<not> is_ws (last text))
       \<longrightarrow> last (contents_of ?es) = text"
    using lst trim_no_ws by auto
  from sim clen len concat_groups [OF pos] sizes full joined cont lst same
  show ?thesis by blast
qed

text \<open>The theorem at the script \<^verbatim>\<open>"a b c d"\<close> with two words per chunk.\<close>

theorem C1_replay_chunks_witness:
  "(1::nat) \<le> 2 \<and>
   (\<exists>es. simulateStreamingResponse exact_arith ''a b c d'' 100 300 2 ''7'' ''X'' = Some es
      \<and> length (contents_of es) = 2 \<and> last (contents_of es) = ''a b c d'')"
proof -
  have h: "(1::nat) \<le> 2" by simp
  have w: "split_on CHR '' '' ''a b c d'' = [''a'', ''b'', ''c'', ''d'']" by simp
  have t: "trim ''a b c d'' = ''a b c d''" by (simp add: trim_def is_ws_def)
  from C1_replay_chunks [OF h, of exact_arith "''a b c d''" 100 300 "''7''" "''X''"]
  obtain es where "simulateStreamingResponse exact_arith ''a b c d'' 100 300 2 ''7'' ''X'' = Some es"
    and "length (contents_of es) = (length (split_on CHR '' '' ''a b c d'') + 2 - 1) div 2"
    and "last (contents_of es) = trim ''a b c d''"
    by blast
  with h show ?thesis unfolding w t by simp
qed

text \<open>
  C1 as the claim states it fails on its last clause: the reply \<^verbatim>\<open>"Hi "\<close> ends with a
  blank, and the content shown at the end is \<^verbatim>\<open>"Hi"\<close>.
\<close>

theorem C1_final_content_counterexample:
  "simulateStreamingResponse exact_arith ''Hi '' 100 300 2 ''7'' ''X''
     = Some [Timeout 100, SetMessages_map (Content_update ''7'' ''Hi''),
             SetMessages_map (Model_update ''7'' ''X'')]
   \<and> ''Hi'' \<noteq> ''Hi ''"
  by code_simp








text \<open>
  C8 (amended). For a replay script whose text is empty (and a chunk size of at least
  one), the run waits for the start delay, then emits exactly one content notification,
  whose content is the empty text, with no timer after it, and then the notification
  that puts the script's model name on the message.
\<close>

theorem C8_empty_text:
  assumes "1 \<le> wpc"
  shows "simulateStreamingResponse ar [] start finish wpc aid m
     = Some [Timeout start, SetMessages_map (Content_update aid []),
             SetMessages_map (Model_update aid m)]"
proof -
  from assms have pos: "0 < wpc" by simp
  have g: "groups wpc [[]::string] = [[[]]]"
    using pos by (simp add: groups_step)
  have t: "trim '' '' = []" by (simp add: trim_def is_ws_def)
  show ?thesis
    unfolding simulate_closed [OF pos] by (simp add: g t)
qed

text \<open>The theorem at three words per chunk.\<close>

theorem C8_empty_text_witness:
  "(1::nat) \<le> 3 \<and>
   simulateStreamingResponse exact_arith [] 100 300 3 ''7'' ''X''
     = Some [Timeout 100, SetMessages_map (Content_update ''7'' []),
             SetMessages_map (Model_update ''7'' ''X'')]"
proof -
  have h: "(1::nat) \<le> 3" by simp
  from C8_empty_text [OF h, of exact_arith 100 300 "''7''" "''X''"] h show ?thesis by simp
qed

text \<open>
  C8 as the claim states it fails: the run for the empty text ends with the notification
  that announces the model \<^verbatim>\<open>"X"\<close>.
\<close>

theorem C8_model_announced_counterexample:
  "simulateStreamingResponse exact_arith [] 100 300 2 ''7'' ''X''
     = Some [Timeout 100, SetMessages_map (Content_update ''7'' []),
             SetMessages_map (Model_update ''7'' ''X'')]"
  by code_simp

subsection \<open>The live stream\<close>

lemma split_on_append:
  "split_on sep (a @ sep # b) = split_on sep a @ split_on sep b"
proof (induction a)
  case Nil show ?case by simp
next
  case (Cons c a)
  obtain w ws where "split_on sep a = w # ws"
    using split_on_not_Nil [of sep a] by (cases "split_on sep a") auto
  with Cons show ?case by simp
qed

lemma handle_lines_append:
  "handle_lines parse aid (xs @ ys) st =
     (let (st1, es1) = handle_lines parse aid xs st;
          (st2, es2) = handle_lines parse aid ys st1
      in (st2, es1 @ es2))"
  by (induction xs arbitrary: st) (auto split: prod.splits)

lemma read_loop_fragment_boundary:
  assumes "\<not> isDone st"
    and "\<not> isDone (fst (handle_lines parse aid (split_on (CHR 0x0A) a) st))"
  shows "read_loop parse aid (Fragment a # Fragment b # rs) st
       = read_loop parse aid (Fragment (a @ CHR 0x0A # b) # rs) st"
proof -
  obtain st1 es1 where h1: "handle_lines parse aid (split_on (CHR 0x0A) a) st = (st1, es1)"
    by force
  with assms(2) have nd: "\<not> isDone st1" by simp
  obtain st2 es2 where h2: "handle_lines parse aid (split_on (CHR 0x0A) b) st1 = (st2, es2)"
    by force
  obtain res es3 where h3: "read_loop parse aid rs st2 = (res, es3)"
    by force
  have two: "read_loop parse aid (Fragment a # Fragment b # rs) st = (res, es1 @ es2 @ es3)"
  proof (cases rs)
    case Nil
    with assms(1) nd h1 h2 h3 show ?thesis by simp
  next
    case (Cons r rs')
    with assms(1) nd h1 h2 h3 show ?thesis by simp
  qed
  have whole: "handle_lines parse aid (split_on (CHR 0x0A) (a @ CHR 0x0A # b)) st
       = (st2, es1 @ es2)"
    by (simp add: split_on_append handle_lines_append h1 h2)
  have "read_loop parse aid (Fragment (a @ CHR 0x0A # b) # rs) st = (res, (es1 @ es2) @ es3)"
    using assms(1) whole h3 by simp
  with two show ?thesis by simp
qed

lemma handle_line_no_prefix:
  "\<not> prefix ''data: '' line \<Longrightarrow> handle_line parse aid line st = (st, [])"
  by (simp add: handle_line_def)

lemma emit_chunks_no_model:
  "\<forall>u \<in> set (updates_of (emit_chunks aid d acc cs)). \<not> is_model_update u"
  by (simp add: updates_of_emit)

text \<open>In a replay the model name comes last: no update before the final one carries it.\<close>

lemma replay_model_name_last:
  assumes "simulateStreamingResponse ar text start finish wpc aid m = Some es"
  shows "\<exists>pre. es = pre @ [SetMessages_map (Model_update aid m)]
           \<and> (\<forall>u \<in> set (updates_of pre). \<not> is_model_update u)"
proof -
  from assms obtain cs where
    "es = (Timeout start
           # emit_chunks aid (delayPerChunk ar start finish (length cs)) [] cs)
          @ [SetMessages_map (Model_update aid m)]"
    by (auto simp: simulateStreamingResponse_def split: option.splits)
  moreover have "\<forall>u \<in> set (updates_of (Timeout start
           # emit_chunks aid (delayPerChunk ar start finish (length cs)) [] cs)).
       \<not> is_model_update u"
    using emit_chunks_no_model by simp
  ultimately show ?thesis by blast
qed

text \<open>
  C3. The claim: no notification carries the model name before the delivery is
  complete. The replay keeps to it, as its comments say (the model name is not shown
  until streaming is complete). The live loop does not: at a stream that names the
  model in its first line, followed by a content line and a \<^verbatim>\<open>done\<close> line, the first
  notification puts \<^verbatim>\<open>"X"\<close> on the placeholder, whose content is still empty, before
  any content and before \<^verbatim>\<open>done\<close>.
\<close>

theorem C3_live_model_before_done:
  "live_delivery parse_flat ''7'' ''q'' Router
     (Response 200 (Some
        [Fragment (''data: {\"model\":\"X\"}'' @ [CHR 0x0A]),
         Fragment (''data: {\"content\":\"Hi\"}'' @ [CHR 0x0A]),
         Fragment (''data: {\"done\":true}'' @ [CHR 0x0A])]))
   = [Fetch ''q'' Router, SetMessages_map (Model_update ''7'' ''X''),
      SetMessages_map (Content_update ''7'' ''Hi''), SetIsLoading False]
   \<and> apply_update (Model_update ''7'' ''X'')
        [\<lparr>id_m = ''7'', role = Assistant, content = [], timestamp = 0, modelName = None\<rparr>]
     = [\<lparr>id_m = ''7'', role = Assistant, content = [], timestamp = 0, modelName = Some ''X''\<rparr>]"
  by code_simp

text \<open>
  C4. The claim: a line whose payload has a non-empty \<^verbatim>\<open>error\<close> field ends the
  delivery with the apology and nothing of the stream is applied after it. The code at
  a stream of an error line, a content line and a \<^verbatim>\<open>done\<close> line: the error line
  is dropped like a malformed line, the later content is shown, no apology is written.
\<close>

theorem C4_error_line_swallowed:
  "live_delivery parse_flat ''7'' ''q'' Router
     (Response 200 (Some
        [Fragment (''data: {\"error\":\"boom\"}'' @ [CHR 0x0A]
                   @ ''data: {\"content\":\"Hi\"}'' @ [CHR 0x0A]),
         Fragment (''data: {\"done\":true}'' @ [CHR 0x0A])]))
   = [Fetch ''q'' Router, SetMessages_map (Content_update ''7'' ''Hi''), SetIsLoading False]"
  by code_simp

text \<open>
  C6. For every live request whose status is not a success or whose body cannot be
  read, the delivery is the request, one notification that replaces the placeholder's
  content by the fixed apology and clears its model name, and the end of loading; it has
  no content notification.
\<close>

theorem C6_failed_request:
  assumes "\<not> ok status \<or> body = None"
  shows "live_delivery parse aid message mt (Response status body)
       = [Fetch message mt, SetMessages_map (Replace_update aid error_apology),
          SetIsLoading False]
     \<and> updates_of (live_delivery parse aid message mt (Response status body))
       = [Replace_update aid error_apology]
     \<and> contents_of (live_delivery parse aid message mt (Response status body)) = []
     \<and> content (rewrite (Replace_update aid error_apology) msg) = error_apology
     \<and> modelName (rewrite (Replace_update aid error_apology) msg) = None"
  using assms by (auto simp: live_delivery_def live_try_def)

text \<open>The theorem at a status 500 whose body would have content, and at a status 200
  without a body.\<close>

theorem C6_failed_request_witness:
  "\<not> ok 500
   \<and> live_delivery parse_flat ''7'' ''q'' Router
         (Response 500 (Some [Fragment (''data: {\"content\":\"Hi\"}'' @ [CHR 0x0A])]))
       = [Fetch ''q'' Router, SetMessages_map (Replace_update ''7'' error_apology),
          SetIsLoading False]
   \<and> contents_of (live_delivery parse_flat ''7'' ''q'' Router (Response 200 None)) = []"
proof -
  have n: "\<not> ok 500" by (simp add: ok_def)
  then have h1: "\<not> ok 500
      \<or> Some [Fragment (''data: {\"content\":\"Hi\"}'' @ [CHR 0x0A])] = None"
    by (rule disjI1)
  have h2: "\<not> ok 200 \<or> (None :: read list option) = None" by simp
  from C6_failed_request [OF h1, of parse_flat "''7''" "''q''" Router]
       C6_failed_request [OF h2, of parse_flat "''7''" "''q''" Router] n
  show ?thesis by blast
qed

text \<open>
  C7 (amended). The fragments of a live stream are not buffered: each fragment is split
  at its newlines on its own, so the end of a fragment ends a line as a newline does
  (as long as no \<^verbatim>\<open>done\<close> was seen), and a payload cut in two by a fragment boundary
  is handled as two lines. A line that does not begin with \<^verbatim>\<open>data: \<close> changes
  nothing and produces no event.
\<close>

theorem C7_fragments_not_buffered:
  "(\<not> prefix ''data: '' line \<longrightarrow> handle_line parse aid line st = (st, []))
   \<and> (\<not> isDone st
        \<and> \<not> isDone (fst (handle_lines parse aid (split_on (CHR 0x0A) a) st))
      \<longrightarrow> read_loop parse aid (Fragment a # Fragment b # rs) st
          = read_loop parse aid (Fragment (a @ CHR 0x0A # b) # rs) st)"
  using handle_line_no_prefix read_loop_fragment_boundary by blast

text \<open>The theorem at a line \<^verbatim>\<open>event: ping\<close>, and at a content payload cut after
  \<^verbatim>\<open>H\<close>: as two fragments and as two lines of one fragment.\<close>

theorem C7_fragments_not_buffered_witness:
  "(\<not> prefix ''data: '' ''event: ping''
      \<and> handle_line parse_flat ''7'' ''event: ping'' \<lparr>accumulatedContent = [], isDone = False\<rparr>
          = (\<lparr>accumulatedContent = [], isDone = False\<rparr>, []))
   \<and> (\<not> isDone \<lparr>accumulatedContent = [], isDone = False\<rparr>
      \<and> \<not> isDone (fst (handle_lines parse_flat ''7''
                          (split_on (CHR 0x0A) ''data: {\"content\":\"H'')
                          \<lparr>accumulatedContent = [], isDone = False\<rparr>))
      \<and> read_loop parse_flat ''7''
            (Fragment ''data: {\"content\":\"H'' # Fragment ''i\"}'' # [])
            \<lparr>accumulatedContent = [], isDone = False\<rparr>
        = read_loop parse_flat ''7''
            (Fragment (''data: {\"content\":\"H'' @ CHR 0x0A # ''i\"}'') # [])
            \<lparr>accumulatedContent = [], isDone = False\<rparr>)"
proof -
  have h1: "\<not> prefix ''data: '' ''event: ping''" by simp
  have h2: "\<not> isDone \<lparr>accumulatedContent = [], isDone = False\<rparr>
      \<and> \<not> isDone (fst (handle_lines parse_flat ''7''
                          (split_on (CHR 0x0A) ''data: {\"content\":\"H'')
                          \<lparr>accumulatedContent = [], isDone = False\<rparr>))"
    by code_simp
  from C7_fragments_not_buffered [where line = "''event: ping''" and parse = parse_flat
      and aid = "''7''" and st = "\<lparr>accumulatedContent = [], isDone = False\<rparr>"
      and a = "''data: {\"content\":\"H''" and b = "''i\"}''" and rs = "[]"]
    h1 h2
  show ?thesis by blast
qed

text \<open>
  C7 as the claim states it fails: the payload \<^verbatim>\<open>{"content":"Hi"}\<close> split after
  \<^verbatim>\<open>H\<close> yields no content, the same text in one fragment yields \<^verbatim>\<open>"Hi"\<close>.
\<close>

theorem C7_split_payload_counterexample:
  "contents_of (live_delivery parse_flat ''7'' ''q'' Router
      (Response 200 (Some [Fragment ''data: {\"content\":\"H'',
                           Fragment (''i\"}'' @ [CHR 0x0A])]))) = []
   \<and> contents_of (live_delivery parse_flat ''7'' ''q'' Router
      (Response 200 (Some [Fragment (''data: {\"content\":\"H'' @ ''i\"}'' @ [CHR 0x0A])])))
     = [''Hi'']"
  by code_simp

subsection \<open>Submissions and message updates\<close>

lemma run_append: "run (es @ fs) s = run fs (run es s)"
  by (simp add: run_def)

lemma apply_update_length: "length (apply_update u prev) = length prev"
  by (simp add: apply_update_def)

lemma rewrite_id: "id_m (rewrite u msg) = id_m msg"
  by (cases u) simp_all

lemma apply_update_ids: "map id_m (apply_update u prev) = map id_m prev"
  by (simp add: apply_update_def rewrite_id)

lemma apply_update_other:
  "i < length prev \<Longrightarrow> id_m (prev ! i) \<noteq> target u \<Longrightarrow> apply_update u prev ! i = prev ! i"
  by (simp add: apply_update_def)

lemma apply_update_foreign:
  "\<forall>msg \<in> set prev. id_m msg \<noteq> target u \<Longrightarrow> apply_update u prev = prev"
  by (simp add: apply_update_def map_idI)

text \<open>Every update of a delivery is aimed at the placeholder.\<close>

lemma targets_emit:
  "\<forall>u \<in> set (updates_of (emit_chunks aid d acc cs)). target u = aid"
  by (simp add: updates_of_emit)

lemma targets_simulate:
  assumes "simulateStreamingResponse ar text start finish wpc aid m = Some es"
  shows "\<forall>u \<in> set (updates_of es). target u = aid"
proof -
  from assms obtain cs where
    "es = Timeout start # emit_chunks aid (delayPerChunk ar start finish (length cs)) [] cs
          @ [SetMessages_map (Model_update aid m)]"
    by (auto simp: simulateStreamingResponse_def split: option.splits)
  then show ?thesis using targets_emit by (simp add: updates_of_append)
qed

lemma targets_handle_line:
  "\<forall>u \<in> set (updates_of (snd (handle_line parse aid line st))). target u = aid"
  by (auto simp: handle_line_def Let_def split: option.splits)

lemma targets_handle_lines:
  "\<forall>u \<in> set (updates_of (snd (handle_lines parse aid ls st))). target u = aid"
proof (induction ls arbitrary: st)
  case Nil show ?case by simp
next
  case (Cons l ls)
  obtain st1 es1 where h: "handle_line parse aid l st = (st1, es1)" by force
  obtain st2 es2 where t: "handle_lines parse aid ls st1 = (st2, es2)" by force
  from targets_handle_line [of parse aid l st] h
  have 1: "\<forall>u \<in> set (updates_of es1). target u = aid" by simp
  from Cons [of st1] t have 2: "\<forall>u \<in> set (updates_of es2). target u = aid" by simp
  from 1 2 h t show ?case by (auto simp: updates_of_append)
qed

lemma targets_read_loop:
  "\<forall>u \<in> set (updates_of (snd (read_loop parse aid rs st))). target u = aid"
proof (induction rs arbitrary: st)
  case Nil show ?case by simp
next
  case (Cons r rs)
  show ?case
  proof (cases "isDone st")
    case True then show ?thesis by simp
  next
    case False
    show ?thesis
    proof (cases r)
      case Read_rejected
      with False show ?thesis by simp
    next
      case (Fragment chunk)
      obtain st1 es1 where
        h: "handle_lines parse aid (split_on (CHR 0x0A) chunk) st = (st1, es1)" by force
      obtain res es2 where t: "read_loop parse aid rs st1 = (res, es2)" by force
      from targets_handle_lines [of parse aid "split_on (CHR 0x0A) chunk" st] h
      have 1: "\<forall>u \<in> set (updates_of es1). target u = aid" by simp
      from Cons [of st1] t have 2: "\<forall>u \<in> set (updates_of es2). target u = aid" by simp
      from 1 2 h t False Fragment show ?thesis by (auto simp: updates_of_append)
    qed
  qed
qed

lemma targets_live_try:
  "\<forall>u \<in> set (updates_of (snd (live_try parse aid resp))). target u = aid"
  using targets_read_loop
  by (auto simp: live_try_def split: http_response.splits option.splits)

lemma targets_live_delivery:
  "\<forall>u \<in> set (updates_of (live_delivery parse aid message mt resp)). target u = aid"
proof -
  obtain res es where h: "live_try parse aid resp = (res, es)" by force
  from targets_live_try [of parse aid resp] h
  have "\<forall>u \<in> set (updates_of es). target u = aid" by simp
  with h show ?thesis
    by (cases res) (auto simp: live_delivery_def updates_of_append)
qed

lemma targets_handleSendMessage:
  assumes "handleSendMessage env customMessage s = Some es"
  shows "\<forall>u \<in> set (updates_of es). target u = toString (dateNow_assistant env + 1)"
proof (cases "messageToSend customMessage (inputValue s) = [] \<or> isLoading s")
  case True
  with assms show ?thesis by (simp add: handleSendMessage_def)
next
  case False
  let ?msg = "messageToSend customMessage (inputValue s)"
  let ?aid = "toString (dateNow_assistant env + 1)"
  let ?begun = "[SetShowSuggestions False,
       SetMessages_append \<lparr>id_m = toString (dateNow_user env), role = User, content = ?msg,
                            timestamp = date_user env, modelName = None\<rparr>,
       SetInputValue [], SetIsLoading True,
       SetMessages_append \<lparr>id_m = ?aid, role = Assistant, content = [],
                            timestamp = date_assistant env, modelName = None\<rparr>]"
  have b: "updates_of ?begun = []" by simp
  show ?thesis
  proof (cases "if offlineMode env then zavaScenarios env ?msg else Absent")
    case Absent
    with False assms
    have "es = ?begun @ live_delivery (json_parse env) ?aid ?msg (modelType s) (backend env)"
      by (simp add: handleSendMessage_def Let_def)
    then have "updates_of es
        = updates_of (live_delivery (json_parse env) ?aid ?msg (modelType s) (backend env))"
      by (simp only: updates_of_append b append_Nil)
    with targets_live_delivery show ?thesis by simp
  next
    case Inherited
    with False assms
    have "es = ?begun @ [SetMessages_map (Replace_update ?aid replay_apology), SetIsLoading False]"
      by (simp add: handleSendMessage_def Let_def)
    then have "updates_of es = [Replace_update ?aid replay_apology]"
      by (simp only: updates_of_append b append_Nil updates_of.simps)
    then show ?thesis by simp
  next
    case (Scenario sc)
    let ?d = "if modelType s = Router then router sc else benchmark sc"
    from False Scenario assms obtain es' where
      sim: "simulateStreamingResponse (number_arith env) (response ?d) (startStreamingMs ?d)
              (finishStreamingMs ?d) (wordsPerChunk ?d) ?aid (model ?d) = Some es'"
      and es: "es = ?begun @ es' @ [SetIsLoading False]"
      by (simp add: handleSendMessage_def Let_def split: option.splits)
    from es have "updates_of es = updates_of es'"
      by (simp only: updates_of_append b append_Nil updates_of.simps append_Nil2)
    with targets_simulate [OF sim] show ?thesis by simp
  qed
qed

text \<open>
  C10. An update of the message list keeps the length of the list and the ids in their
  order, and leaves every message whose id is not the update's target as it is, in all
  its fields; every update of a replay, of a live delivery and of a whole
  \<^verbatim>\<open>handleSendMessage\<close> has the placeholder's id as its target.
\<close>

theorem C10_only_placeholder_rewritten:
  "length (apply_update u prev) = length prev
   \<and> map id_m (apply_update u prev) = map id_m prev
   \<and> (\<forall>i < length prev. id_m (prev ! i) \<noteq> target u \<longrightarrow> apply_update u prev ! i = prev ! i)
   \<and> (simulateStreamingResponse ar reply start finish wpc aid m = Some es1 \<longrightarrow>
        (\<forall>v \<in> set (updates_of es1). target v = aid))
   \<and> (\<forall>v \<in> set (updates_of (live_delivery parse aid message mt resp)). target v = aid)
   \<and> (handleSendMessage env customMessage s = Some es \<longrightarrow>
        (\<forall>v \<in> set (updates_of es). target v = toString (dateNow_assistant env + 1)))"
proof (intro conjI)
  show "length (apply_update u prev) = length prev" by (rule apply_update_length)
  show "map id_m (apply_update u prev) = map id_m prev" by (rule apply_update_ids)
  show "\<forall>i < length prev. id_m (prev ! i) \<noteq> target u \<longrightarrow> apply_update u prev ! i = prev ! i"
    by (simp add: apply_update_other)
  show "simulateStreamingResponse ar reply start finish wpc aid m = Some es1 \<longrightarrow>
        (\<forall>v \<in> set (updates_of es1). target v = aid)"
    using targets_simulate by blast
  show "\<forall>v \<in> set (updates_of (live_delivery parse aid message mt resp)). target v = aid"
    by (rule targets_live_delivery)
  show "handleSendMessage env customMessage s = Some es \<longrightarrow>
        (\<forall>v \<in> set (updates_of es). target v = toString (dateNow_assistant env + 1))"
    using targets_handleSendMessage by blast
qed

text \<open>The theorem at the first content update of the sample replay, in the message list
  it meets.\<close>

theorem C10_only_placeholder_rewritten_witness:
  "simulateStreamingResponse exact_arith ''a b'' 100 300 1 ''42'' ''X''
     = Some [Timeout 100, SetMessages_map (Content_update ''42'' ''a''), Timeout 100,
             SetMessages_map (Content_update ''42'' ''a b''),
             SetMessages_map (Model_update ''42'' ''X'')]
   \<and> target ` set (updates_of [Timeout 100, SetMessages_map (Content_update ''42'' ''a''),
             Timeout 100, SetMessages_map (Content_update ''42'' ''a b''),
             SetMessages_map (Model_update ''42'' ''X'')]) \<subseteq> {''42''}
   \<and> handleSendMessage sample_env None sample_state
     = Some [SetShowSuggestions False,
             SetMessages_append \<lparr>id_m = ''41'', role = User, content = ''hello'',
                                  timestamp = 41, modelName = None\<rparr>,
             SetInputValue [], SetIsLoading True,
             SetMessages_append \<lparr>id_m = ''42'', role = Assistant, content = [],
                                  timestamp = 41, modelName = None\<rparr>,
             Timeout 100, SetMessages_map (Content_update ''42'' ''a''), Timeout 100,
             SetMessages_map (Content_update ''42'' ''a b''),
             SetMessages_map (Model_update ''42'' ''X''), SetIsLoading False]
   \<and> target ` set (updates_of [SetShowSuggestions False,
             SetMessages_append \<lparr>id_m = ''41'', role = User, content = ''hello'',
                                  timestamp = 41, modelName = None\<rparr>,
             SetInputValue [], SetIsLoading True,
             SetMessages_append \<lparr>id_m = ''42'', role = Assistant, content = [],
                                  timestamp = 41, modelName = None\<rparr>,
             Timeout 100, SetMessages_map (Content_update ''42'' ''a''), Timeout 100,
             SetMessages_map (Content_update ''42'' ''a b''),
             SetMessages_map (Model_update ''42'' ''X''), SetIsLoading False])
       \<subseteq> {toString (dateNow_assistant sample_env + 1)}
   \<and> (0::nat) < length [\<lparr>id_m = ''41'', role = User, content = ''hello'', timestamp = 41,
                           modelName = None\<rparr>,
                         \<lparr>id_m = ''42'', role = Assistant, content = [], timestamp = 41,
                           modelName = None\<rparr>]
   \<and> id_m ([\<lparr>id_m = ''41'', role = User, content = ''hello'', timestamp = 41,
              modelName = None\<rparr>,
            \<lparr>id_m = ''42'', role = Assistant, content = [], timestamp = 41,
              modelName = None\<rparr>] ! 0) \<noteq> target (Content_update ''42'' ''a'')
   \<and> apply_update (Content_update ''42'' ''a'')
         [\<lparr>id_m = ''41'', role = User, content = ''hello'', timestamp = 41,
            modelName = None\<rparr>,
          \<lparr>id_m = ''42'', role = Assistant, content = [], timestamp = 41,
            modelName = None\<rparr>] ! 0
       = [\<lparr>id_m = ''41'', role = User, content = ''hello'', timestamp = 41,
            modelName = None\<rparr>,
          \<lparr>id_m = ''42'', role = Assistant, content = [], timestamp = 41,
            modelName = None\<rparr>] ! 0"
proof -
  let ?es1 = "[Timeout 100, SetMessages_map (Content_update ''42'' ''a''), Timeout 100,
             SetMessages_map (Content_update ''42'' ''a b''),
             SetMessages_map (Model_update ''42'' ''X'')]"
  let ?es = "[SetShowSuggestions False,
             SetMessages_append \<lparr>id_m = ''41'', role = User, content = ''hello'',
                                  timestamp = 41, modelName = None\<rparr>,
             SetInputValue [], SetIsLoading True,
             SetMessages_append \<lparr>id_m = ''42'', role = Assistant, content = [],
                                  timestamp = 41, modelName = None\<rparr>,
             Timeout 100, SetMessages_map (Content_update ''42'' ''a''), Timeout 100,
             SetMessages_map (Content_update ''42'' ''a b''),
             SetMessages_map (Model_update ''42'' ''X''), SetIsLoading False]"
  let ?prev = "[\<lparr>id_m = ''41'', role = User, content = ''hello'', timestamp = 41,
                  modelName = None\<rparr>,
                \<lparr>id_m = ''42'', role = Assistant, content = [], timestamp = 41,
                  modelName = None\<rparr>]"
  have h1: "simulateStreamingResponse exact_arith ''a b'' 100 300 1 ''42'' ''X'' = Some ?es1"
    by code_simp
  have h2: "handleSendMessage sample_env None sample_state = Some ?es"
    by code_simp
  have h3: "(0::nat) < length ?prev" by simp
  have h4: "id_m (?prev ! 0) \<noteq> target (Content_update ''42'' ''a'')" by simp
  from C10_only_placeholder_rewritten [of "Content_update ''42'' ''a''" ?prev
      exact_arith "''a b''" 100 300 1 "''42''" "''X''" ?es1 parse_flat "''q''" Router Rejected
      sample_env None sample_state ?es] h1 h2 h3 h4
  show ?thesis by blast
qed

subsection \<open>A reset during a replay\<close>

lemma emit_chunks_effects:
  "\<forall>e \<in> set (emit_chunks aid d acc cs).
     (\<exists>t. e = Timeout t) \<or> (\<exists>u. e = SetMessages_map u \<and> target u = aid)"
  by (induction cs arbitrary: acc) auto

lemma simulate_effects:
  assumes "simulateStreamingResponse ar reply start finish wpc aid m = Some es"
  shows "\<forall>e \<in> set es. (\<exists>t. e = Timeout t) \<or> (\<exists>u. e = SetMessages_map u \<and> target u = aid)"
proof -
  from assms obtain cs where
    "es = Timeout start # emit_chunks aid (delayPerChunk ar start finish (length cs)) [] cs
          @ [SetMessages_map (Model_update aid m)]"
    by (auto simp: simulateStreamingResponse_def split: option.splits)
  then show ?thesis using emit_chunks_effects [of aid _ "[]" cs] by auto
qed

lemma simulate_ends_with_model:
  assumes "simulateStreamingResponse ar reply start finish wpc aid m = Some es"
  shows "\<exists>pre. es = pre @ [SetMessages_map (Model_update aid m)]"
  using assms by (auto simp: simulateStreamingResponse_def split: option.splits)

lemma run_foreign:
  assumes "\<forall>e \<in> set es. (\<exists>t. e = Timeout t) \<or> (\<exists>u. e = SetMessages_map u \<and> target u = aid)"
    and "\<forall>msg \<in> set (messages s). id_m msg \<noteq> aid"
  shows "run es s = s"
  using assms
proof (induction es)
  case Nil show ?case by (simp add: run_def)
next
  case (Cons e es)
  from Cons.prems have "apply_effect e s = s"
    by (auto simp: apply_update_foreign)
  moreover from Cons have "run es s = s" by simp
  ultimately show ?case by (simp add: run_def)
qed

lemma messages_after_reset: "messages (run (handleReset now) s) = initialMessages now"
  by (simp add: run_def handleReset_def)

lemma updates_of_take_drop: "updates_of (take k es) @ updates_of (drop k es) = updates_of es"
  by (simp only: updates_of_append [symmetric] append_take_drop_id)

lemma delays_of_take_drop: "delays_of (take k es) @ delays_of (drop k es) = delays_of es"
  by (simp only: delays_of_append [symmetric] append_take_drop_id)

lemma handleReset_silent: "updates_of (handleReset now) = []" "delays_of (handleReset now) = []"
  by (simp_all add: handleReset_def)

lemma after_the_reset: "drop (k + length (handleReset now)) (reset_during k now es) = drop k es"
proof (cases "k \<le> length es")
  case True
  then have "length (take k es) = k" by simp
  then show ?thesis by (simp add: reset_during_def)
next
  case False
  then show ?thesis by (simp add: reset_during_def)
qed

text \<open>
  C9 (amended). When the conversation is reset while a replay is suspended, the replay
  is not abandoned. The trace after the five effects of the reset is exactly what
  remained of the replay, so every notification and every timer of the replay is carried
  out, reset or not, and as long as the replay was not over at least one notification
  follows the reset. Each remaining effect waits or rewrites messages with the
  placeholder's id only, so it leaves unchanged every state whose messages have other
  ids; the reset conversation in particular, whose one message has the id \<^verbatim>\<open>1\<close>,
  stays as the reset made it.
\<close>

theorem C9_reset_during_replay:
  assumes "simulateStreamingResponse ar reply start finish wpc aid m = Some es"
  shows "drop (k + length (handleReset now)) (reset_during k now es) = drop k es
     \<and> updates_of (reset_during k now es) = updates_of es
     \<and> delays_of (reset_during k now es) = delays_of es
     \<and> (k < length es \<longrightarrow> updates_of (drop k es) \<noteq> [])
     \<and> ((\<forall>msg \<in> set (messages s'). id_m msg \<noteq> aid) \<longrightarrow> run (drop k es) s' = s')
     \<and> (aid \<noteq> ''1'' \<longrightarrow>
          run (reset_during k now es) s = run (handleReset now) (run (take k es) s)
          \<and> messages (run (reset_during k now es) s) = initialMessages now)"
proof (intro conjI impI)
  show "drop (k + length (handleReset now)) (reset_during k now es) = drop k es"
    by (rule after_the_reset)
  show "updates_of (reset_during k now es) = updates_of es"
    by (simp add: reset_during_def updates_of_append handleReset_silent updates_of_take_drop)
  show "delays_of (reset_during k now es) = delays_of es"
    by (simp add: reset_during_def delays_of_append handleReset_silent delays_of_take_drop)
next
  assume k: "k < length es"
  from simulate_ends_with_model [OF assms] obtain pre where
    es: "es = pre @ [SetMessages_map (Model_update aid m)]" by blast
  with k have "drop k es = drop k pre @ [SetMessages_map (Model_update aid m)]" by simp
  then show "updates_of (drop k es) \<noteq> []" by (simp add: updates_of_append)
next
  have rest: "\<forall>e \<in> set (drop k es).
      (\<exists>t. e = Timeout t) \<or> (\<exists>u. e = SetMessages_map u \<and> target u = aid)"
    using simulate_effects [OF assms] by (meson in_set_dropD)
  {
    assume "\<forall>msg \<in> set (messages s'). id_m msg \<noteq> aid"
    with rest show "run (drop k es) s' = s'" by (rule run_foreign)
  }
  assume aid: "aid \<noteq> ''1''"
  let ?mid = "run (handleReset now) (run (take k es) s)"
  have "\<forall>msg \<in> set (messages ?mid). id_m msg \<noteq> aid"
    using aid by (simp add: messages_after_reset initialMessages_def)
  with rest have "run (drop k es) ?mid = ?mid" by (rule run_foreign)
  then show 1: "run (reset_during k now es) s = ?mid"
    by (simp add: reset_during_def run_append)
  show "messages (run (reset_during k now es) s) = initialMessages now"
    unfolding 1 by (rule messages_after_reset)
qed

text \<open>The theorem at the script \<^verbatim>\<open>"a b"\<close> with one word per chunk and a reset during
  the second timer.\<close>

theorem C9_reset_during_replay_witness:
  "simulateStreamingResponse exact_arith ''a b'' 100 300 1 ''7'' ''X''
     = Some [Timeout 100, SetMessages_map (Content_update ''7'' ''a''), Timeout 100,
             SetMessages_map (Content_update ''7'' ''a b''),
             SetMessages_map (Model_update ''7'' ''X'')]
   \<and> drop (3 + length (handleReset 5))
        (reset_during 3 5 [Timeout 100, SetMessages_map (Content_update ''7'' ''a''),
             Timeout 100, SetMessages_map (Content_update ''7'' ''a b''),
             SetMessages_map (Model_update ''7'' ''X'')])
       = drop 3 [Timeout 100, SetMessages_map (Content_update ''7'' ''a''), Timeout 100,
             SetMessages_map (Content_update ''7'' ''a b''),
             SetMessages_map (Model_update ''7'' ''X'')]
   \<and> updates_of (reset_during 3 5 [Timeout 100, SetMessages_map (Content_update ''7'' ''a''),
             Timeout 100, SetMessages_map (Content_update ''7'' ''a b''),
             SetMessages_map (Model_update ''7'' ''X'')])
       = updates_of [Timeout 100, SetMessages_map (Content_update ''7'' ''a''), Timeout 100,
             SetMessages_map (Content_update ''7'' ''a b''),
             SetMessages_map (Model_update ''7'' ''X'')]
   \<and> (3::nat) < length [Timeout 100, SetMessages_map (Content_update ''7'' ''a''), Timeout 100,
             SetMessages_map (Content_update ''7'' ''a b''),
             SetMessages_map (Model_update ''7'' ''X'')]
   \<and> updates_of (drop 3 [Timeout 100, SetMessages_map (Content_update ''7'' ''a''), Timeout 100,
             SetMessages_map (Content_update ''7'' ''a b''),
             SetMessages_map (Model_update ''7'' ''X'')]) \<noteq> []
   \<and> ''7'' \<notin> id_m ` set (messages (sample_state\<lparr>messages := initialMessages 5\<rparr>))
   \<and> run (drop 3 [Timeout 100, SetMessages_map (Content_update ''7'' ''a''), Timeout 100,
             SetMessages_map (Content_update ''7'' ''a b''),
             SetMessages_map (Model_update ''7'' ''X'')])
          (sample_state\<lparr>messages := initialMessages 5\<rparr>)
       = sample_state\<lparr>messages := initialMessages 5\<rparr>
   \<and> ''7'' \<noteq> ''1''
   \<and> messages (run (reset_during 3 5 [Timeout 100, SetMessages_map (Content_update ''7'' ''a''),
             Timeout 100, SetMessages_map (Content_update ''7'' ''a b''),
             SetMessages_map (Model_update ''7'' ''X'')]) sample_state)
       = initialMessages 5"
proof -
  let ?es = "[Timeout 100, SetMessages_map (Content_update ''7'' ''a''), Timeout 100,
             SetMessages_map (Content_update ''7'' ''a b''),
             SetMessages_map (Model_update ''7'' ''X'')]"
  have h1: "simulateStreamingResponse exact_arith ''a b'' 100 300 1 ''7'' ''X'' = Some ?es"
    by code_simp
  have h2: "(3::nat) < length ?es" by simp
  have h3: "''7'' \<notin> id_m ` set (messages (sample_state\<lparr>messages := initialMessages 5\<rparr>))"
    by (simp add: initialMessages_def)
  then have h3': "\<forall>msg \<in> set (messages (sample_state\<lparr>messages := initialMessages 5\<rparr>)).
      id_m msg \<noteq> ''7''"
    by force
  have h4: "''7'' \<noteq> ''1''" by simp
  from C9_reset_during_replay [OF h1, of 3 5 "sample_state\<lparr>messages := initialMessages 5\<rparr>"
      sample_state] h1 h2 h3 h3' h4
  show ?thesis by blast
qed

text \<open>
  C9 as the claim states it fails: after the effects of the reset the trace goes on with
  the second content notification and the model name.
\<close>

theorem C9_notifications_after_reset_counterexample:
  "map_option (reset_during 3 5)
     (simulateStreamingResponse exact_arith ''a b'' 100 300 1 ''7'' ''X'')
     = Some [Timeout 100, SetMessages_map (Content_update ''7'' ''a''), Timeout 100,
             SetMessages_value (initialMessages 5), SetInputValue [], SetIsLoading False,
             SetModelType Router, SetShowSuggestions True,
             SetMessages_map (Content_update ''7'' ''a b''),
             SetMessages_map (Model_update ''7'' ''X'')]"
  by code_simp

subsection \<open>Submissions while a delivery is in flight\<close>














end
